theory Spec2Isabelle
  imports Complex_Main
begin

section \<open>Dice Master: the application root and the die face\<close>

text \<open>
  The application root (\<^verbatim>\<open>App\<close>) keeps four pieces of React state: \<^verbatim>\<open>numDice\<close>,
  \<^verbatim>\<open>diceValues\<close>, \<^verbatim>\<open>isRolling\<close> and \<^verbatim>\<open>total\<close>; two refs that matter for the roll
  (\<^verbatim>\<open>startTimeRef\<close>, \<^verbatim>\<open>timerRef\<close>); and it calls the host for audio, speech and timers.
  The model is a record of the state and refs, a trace of the host calls made so far, and
  one function per handler, effect and callback of the source.

  Modelling decisions:
  \<^item> JavaScript numbers that hold counts, die values, sums and millisecond clocks are
    \<open>int\<close>: they are integers far below \<open>2 ^ 53\<close>, where binary64 arithmetic is exact.
  \<^item> The result of \<^verbatim>\<open>Math.random()\<close> is a binary64 double in \<open>[0, 1)\<close>, given by an integer
    significand and a binary exponent, and \<^verbatim>\<open>Math.random() * 6\<close> is the binary64 product:
    the exact product rounded to the nearest double, a tie going to the even one.
  \<^item> All state setters called by one handler or one timer callback are applied together
    (React's batching), so each handler and each callback is one transition.
  \<^item> The values that \<^verbatim>\<open>Math.random()\<close> and \<^verbatim>\<open>Date.now()\<close> return are inputs of the
    transition that reads them: a clock value, and a sequence \<open>rs\<close> where \<open>rs i\<close> is what
    the \<open>i\<close>-th call of \<^verbatim>\<open>getRandomValue\<close> within that transition drew.
  \<^item> A host call (\<^verbatim>\<open>initAudio\<close>, \<^verbatim>\<open>playShakeSound\<close>, \<^verbatim>\<open>setTimeout\<close>, \<^verbatim>\<open>speakResult\<close>) is
    recorded in the trace, in call order; what the host does with it (audio context,
    noise buffer, voice selection) is not modelled.
  \<^item> Unmounting ends the life of the component; its cleanup is not a transition here.
\<close>

subsection \<open>Constants\<close>

definition MIN_DICE :: int where "MIN_DICE = 1"
definition MAX_DICE :: int where "MAX_DICE = 8"
definition ROLL_DURATION_MS :: int where "ROLL_DURATION_MS = 1000"
definition SHUFFLE_INTERVAL_MS :: int where "SHUFFLE_INTERVAL_MS = 80"

subsection \<open>State\<close>

text \<open>
  \<^verbatim>\<open>speakResult(isWin)\<close> utters one of two fixed phrases; the argument decides which.
\<close>

datatype phrase = Congratulations | KeepTrying

definition speakText :: "bool \<Rightarrow> phrase" where
  "speakText isWin = (if isWin then Congratulations else KeepTrying)"

datatype effect =
    InitAudio
  | PlayShakeSound
  | SetTimeout int
  | SpeakResult bool

text \<open>
  \<open>pending\<close> is the host's timer queue for this component: \<open>Some n\<close> when a call of
  \<^verbatim>\<open>animate\<close> is scheduled, \<open>n\<close> being the \<^verbatim>\<open>numDice\<close> that the closure of \<^verbatim>\<open>rollDice\<close>
  captured when the roll started.
\<close>

record app =
  numDice :: int
  diceValues :: "int list"
  isRolling :: bool
  total :: "int option"
  startTimeRef :: "int option"
  pending :: "int option"
  trace :: "effect list"

definition initial :: app where
  "initial = \<lparr> numDice = 1, diceValues = [1], isRolling = False, total = None,
               startTimeRef = None, pending = None, trace = [] \<rparr>"

subsection \<open>Random die value\<close>

text \<open>
  A draw \<open>(m, k)\<close> stands for the double \<open>m / 2 ^ k\<close>. The doubles in \<open>[0, 1)\<close> are exactly
  the numbers of this form with \<open>m < 2 ^ 53\<close> (53 bits of significand), \<open>k \<le> 1074\<close> (the
  smallest binary64 exponent) and \<open>m < 2 ^ k\<close> (below 1).
\<close>

type_synonym draw = "nat \<times> nat"

fun unitDouble :: "draw \<Rightarrow> bool" where
  "unitDouble (m, k) = (m < 2 ^ 53 \<and> m < 2 ^ k \<and> k \<le> 1074)"

fun drawValue :: "draw \<Rightarrow> real" where
  "drawValue (m, k) = real m / 2 ^ k"

text \<open>
  Rounding a natural number to the nearest multiple of \<open>q\<close>, a tie going to the multiple
  with the even quotient.
\<close>

definition roundToEven :: "nat \<Rightarrow> nat \<Rightarrow> nat" where
  "roundToEven q n =
     (let d = n div q; r = n mod q in
      q * (if 2 * r < q then d else if q < 2 * r then d + 1
           else if even d then d else d + 1))"

text \<open>
  The significand of a binary64 product: the exact product of the draw \<open>(m, k)\<close> with 6 is
  \<open>(m * 6) / 2 ^ k\<close> with \<open>m * 6 < 2 ^ 56\<close>, and the double nearest to it keeps 53
  significant bits of \<open>m * 6\<close>, so it is \<open>m * 6\<close> rounded to a multiple of 1, 2, 4 or 8, over
  \<open>2 ^ k\<close>. (With \<open>k \<le> 1074\<close> the result is a normal double or an exact one, and it is below
  the overflow threshold.)
\<close>

definition round53 :: "nat \<Rightarrow> nat" where
  "round53 n =
     (if n < 2 ^ 53 then n
      else if n < 2 ^ 54 then roundToEven 2 n
      else if n < 2 ^ 55 then roundToEven 4 n
      else roundToEven 8 n)"

text \<open>
  \<^verbatim>\<open>Math.floor(Math.random() * 6) + 1\<close>, with \<open>(m, k)\<close> the number drawn: the floor of the
  rounded product \<open>round53 (m * 6) / 2 ^ k\<close>, plus one.
\<close>

fun getRandomValue :: "draw \<Rightarrow> int" where
  "getRandomValue (m, k) = int (round53 (m * 6) div 2 ^ k) + 1"

subsection \<open>Adjusting the number of dice\<close>

text \<open>The updater passed to \<^verbatim>\<open>setNumDice\<close>.\<close>

definition clampDice :: "int \<Rightarrow> int \<Rightarrow> int" where
  "clampDice prev increment =
     (let newValue = prev + increment in
      if newValue < MIN_DICE then MIN_DICE
      else if newValue > MAX_DICE then MAX_DICE
      else newValue)"

definition handleAdjustDice :: "int \<Rightarrow> app \<Rightarrow> app" where
  "handleAdjustDice increment w =
     (if isRolling w then w
      else w\<lparr> numDice := clampDice (numDice w) increment,
              trace := trace w @ [InitAudio] \<rparr>)"

text \<open>
  \<^verbatim>\<open>prev.slice(0, e)\<close>: a negative end counts from the end of the array.
\<close>

definition slice0 :: "'a list \<Rightarrow> int \<Rightarrow> 'a list" where
  "slice0 xs e =
     (if e < 0 then take (nat (int (length xs) + e)) xs else take (nat e) xs)"

text \<open>The updater passed to \<^verbatim>\<open>setDiceValues\<close> by the effect that depends on \<^verbatim>\<open>numDice\<close>.\<close>

definition syncDiceValues :: "int \<Rightarrow> int list \<Rightarrow> int list" where
  "syncDiceValues n prev =
     (let currentLength = int (length prev) in
      if currentLength = n then prev
      else if currentLength < n then prev @ replicate (nat (n - currentLength)) 1
      else slice0 prev n)"

definition numDiceEffect :: "app \<Rightarrow> app" where
  "numDiceEffect w =
     w\<lparr> diceValues := syncDiceValues (numDice w) (diceValues w), total := None \<rparr>"

text \<open>
  One click on a count button: the handler, then React runs the effect when its dependency
  \<^verbatim>\<open>numDice\<close> has changed, and not otherwise.
\<close>

definition adjust :: "int \<Rightarrow> app \<Rightarrow> app" where
  "adjust increment w =
     (let w1 = handleAdjustDice increment w in
      if numDice w1 = numDice w then w1 else numDiceEffect w1)"

text \<open>The state after mounting: the effect runs once on the initial state.\<close>

definition mounted :: app where
  "mounted = numDiceEffect initial"

subsection \<open>The roll\<close>

text \<open>
  \<^verbatim>\<open>animate\<close>, with \<open>n\<close> the captured \<^verbatim>\<open>numDice\<close>, \<open>now\<close> the value of \<^verbatim>\<open>Date.now()\<close> and
  \<open>rs\<close> the numbers drawn. \<^verbatim>\<open>startTimeRef.current || 0\<close> is \<open>0\<close> for an unset ref.
\<close>

definition animate :: "int \<Rightarrow> int \<Rightarrow> (nat \<Rightarrow> draw) \<Rightarrow> app \<Rightarrow> app" where
  "animate n now rs w =
     (let elapsed = now - (case startTimeRef w of None \<Rightarrow> 0 | Some t \<Rightarrow> t) in
      if elapsed < ROLL_DURATION_MS then
        w\<lparr> diceValues := map (\<lambda>i. getRandomValue (rs i)) [0..<length (diceValues w)],
           pending := Some n,
           trace := trace w @ [PlayShakeSound, SetTimeout SHUFFLE_INTERVAL_MS] \<rparr>
      else
        (let finalValues = map (\<lambda>i. getRandomValue (rs i)) [0..<nat n];
             finalTotal = foldl (\<lambda>acc val. acc + val) 0 finalValues;
             isWin = (finalTotal \<ge> n * 3)
         in w\<lparr> diceValues := finalValues,
                total := Some finalTotal,
                isRolling := False,
                trace := trace w @ [SpeakResult isWin] \<rparr>))"

text \<open>
  \<^verbatim>\<open>rollDice\<close>: \<open>t0\<close> is the clock read that sets \<^verbatim>\<open>startTimeRef\<close>, \<open>t1\<close> the one of the
  first call of \<^verbatim>\<open>animate\<close>, made before the handler returns.
\<close>

definition rollDice :: "int \<Rightarrow> int \<Rightarrow> (nat \<Rightarrow> draw) \<Rightarrow> app \<Rightarrow> app" where
  "rollDice t0 t1 rs w =
     (if isRolling w then w
      else animate (numDice w) t1 rs
             (w\<lparr> isRolling := True, total := None, startTimeRef := Some t0,
                 trace := trace w @ [InitAudio] \<rparr>))"

text \<open>The host runs the scheduled callback, if there is one.\<close>

definition timerFires :: "int \<Rightarrow> (nat \<Rightarrow> draw) \<Rightarrow> app \<Rightarrow> app" where
  "timerFires now rs w =
     (case pending w of
        None \<Rightarrow> w
      | Some n \<Rightarrow> animate n now rs (w\<lparr> pending := None \<rparr>))"

subsection \<open>What is displayed\<close>

definition isLucky :: "app \<Rightarrow> bool" where
  "isLucky w = (case total w of None \<Rightarrow> False | Some t \<Rightarrow> t \<ge> numDice w * 3)"

text \<open>The caption of the results area.\<close>

definition feedback :: "app \<Rightarrow> string" where
  "feedback w =
     (if total w \<noteq> None \<and> \<not> isRolling w then
        (if isLucky w then ''Nice Roll!'' else ''Low Roll...'')
      else (if isRolling w then ''Rolling...'' else ''Ready to roll''))"

subsection \<open>Transitions\<close>

datatype event =
    AdjustDice int
  | RollDice int int "nat \<Rightarrow> draw"
  | TimerFires int "nat \<Rightarrow> draw"

fun step :: "event \<Rightarrow> app \<Rightarrow> app" where
  "step (AdjustDice increment) w = adjust increment w"
| "step (RollDice t0 t1 rs) w = rollDice t0 t1 rs w"
| "step (TimerFires now rs) w = timerFires now rs w"

definition run :: "event list \<Rightarrow> app" where
  "run es = foldl (\<lambda>w e. step e w) mounted es"

text \<open>The numbers an event draws for the dice.\<close>

fun draws :: "event \<Rightarrow> nat \<Rightarrow> draw" where
  "draws (AdjustDice increment) = (\<lambda>i. (0, 0))"
| "draws (RollDice t0 t1 rs) = rs"
| "draws (TimerFires now rs) = rs"

text \<open>
  An event completes a roll when it takes the finishing branch of \<^verbatim>\<open>animate\<close>: a scheduled
  callback that finds the duration elapsed, or a roll whose first call of \<^verbatim>\<open>animate\<close>
  already does.
\<close>

fun completes :: "event \<Rightarrow> app \<Rightarrow> bool" where
  "completes (AdjustDice increment) w = False"
| "completes (RollDice t0 t1 rs) w = (\<not> isRolling w \<and> \<not> t1 - t0 < ROLL_DURATION_MS)"
| "completes (TimerFires now rs) w =
     (pending w \<noteq> None \<and>
      \<not> now - (case startTimeRef w of None \<Rightarrow> 0 | Some t \<Rightarrow> t) < ROLL_DURATION_MS)"

subsection \<open>The die face\<close>

text \<open>\<^verbatim>\<open>getDots\<close>: the lit cells of the 3x3 grid, cells numbered 0 to 8 row by row.\<close>

definition getDots :: "int \<Rightarrow> nat list" where
  "getDots val =
     (if val = 1 then [4]
      else if val = 2 then [2, 6]
      else if val = 3 then [0, 4, 8]
      else if val = 4 then [0, 2, 6, 8]
      else if val = 5 then [0, 2, 4, 6, 8]
      else if val = 6 then [0, 2, 3, 5, 6, 8]
      else [])"

text \<open>The nine cells as rendered: cell \<open>i\<close> shows a dot when \<^verbatim>\<open>dots.includes(i)\<close>.\<close>

definition dieCells :: "int \<Rightarrow> bool list" where
  "dieCells val = map (\<lambda>i. i \<in> set (getDots val)) [0..<9]"


subsection \<open>The phrase spoken for a host call\<close>

definition spoken :: "effect \<Rightarrow> phrase option" where
  "spoken x = (case x of SpeakResult isWin \<Rightarrow> Some (speakText isWin) | _ \<Rightarrow> None)"

subsection \<open>The invariant of the transitions\<close>

text \<open>
  The count is within its bounds, the collection has one entry per die, no total is
  present during a roll, and a callback is scheduled exactly during a roll, closed over
  the current count.
\<close>

definition wellFormed :: "app \<Rightarrow> bool" where
  "wellFormed w =
     (MIN_DICE \<le> numDice w \<and> numDice w \<le> MAX_DICE
      \<and> int (length (diceValues w)) = numDice w
      \<and> (if isRolling w then total w = None \<and> pending w = Some (numDice w)
         else pending w = None))"


section \<open>Properties\<close>

lemmas consts_defs = MIN_DICE_def MAX_DICE_def ROLL_DURATION_MS_def SHUFFLE_INTERVAL_MS_def

lemmas eval_defs = run_def mounted_def initial_def numDiceEffect_def syncDiceValues_def
  slice0_def adjust_def handleAdjustDice_def clampDice_def rollDice_def timerFires_def
  animate_def round53_def roundToEven_def isLucky_def feedback_def speakText_def
  MIN_DICE_def MAX_DICE_def ROLL_DURATION_MS_def SHUFFLE_INTERVAL_MS_def Let_def

subsection \<open>Arithmetic of the sum and of the draw\<close>

lemma foldl_add_sum_list:
  "foldl (\<lambda>acc val. acc + val) a xs = a + sum_list (xs :: int list)"
  by (induction xs arbitrary: a) simp_all

text \<open>Rounding moves \<open>m * 6\<close> by at most half a step, so it stays below \<open>6 * 2 ^ 53\<close>.\<close>

lemma roundToEven_upper:
  assumes "0 < q"
  shows "2 * roundToEven q n \<le> 2 * n + q"
proof -
  define d where "d = n div q"
  define r where "r = n mod q"
  have n: "n = q * d + r" by (simp add: d_def r_def)
  have r: "r < q" using assms by (simp add: r_def)
  have "2 * (q * (if 2 * r < q then d else if q < 2 * r then d + 1
           else if even d then d else d + 1)) \<le> 2 * (q * d + r) + q"
    using r by (simp add: algebra_simps)
  then show ?thesis
    unfolding roundToEven_def Let_def d_def [symmetric] r_def [symmetric] n [symmetric] .
qed

lemma round53_upper: "round53 n \<le> n + 4"
proof -
  have "2 * roundToEven 2 n \<le> 2 * n + 2" "2 * roundToEven 4 n \<le> 2 * n + 4"
    "2 * roundToEven 8 n \<le> 2 * n + 8"
    by (rule roundToEven_upper, simp)+
  then have "roundToEven 2 n \<le> n + 4" "roundToEven 4 n \<le> n + 4" "roundToEven 8 n \<le> n + 4"
    by linarith+
  then show ?thesis unfolding round53_def by (simp del: power_numeral)
qed

lemma getRandomValue_range:
  assumes "unitDouble d"
  shows "1 \<le> getRandomValue d \<and> getRandomValue d \<le> 6"
proof (cases d)
  case (Pair m k)
  then have m: "m < 2 ^ k" using assms by simp
  have "round53 (m * 6) \<le> m * 6 + 4" by (rule round53_upper)
  also have "\<dots> < 6 * 2 ^ k" using m by simp
  finally have "round53 (m * 6) div 2 ^ k < 6"
    by (simp add: less_mult_imp_div_less del: power_numeral)
  then show ?thesis using Pair by simp
qed

text \<open>A draw that passes \<open>unitDouble\<close> stands for a number in \<open>[0, 1)\<close>.\<close>

lemma drawValue_unit:
  assumes "unitDouble d"
  shows "0 \<le> drawValue d \<and> drawValue d < 1"
proof (cases d)
  case (Pair m k)
  then have "m < 2 ^ k" using assms by simp
  then have "real m < 2 ^ k"
    by (metis of_nat_less_iff of_nat_numeral of_nat_power)
  then show ?thesis using Pair by simp
qed

text \<open>
  The rounding is visible in the face: the double nearest to \<open>2/3\<close> from below, times 6, is
  \<open>4\<close> after rounding, so the face is 5, where the exact product would give 4. The largest
  double below 1 gives the face 6.
\<close>

lemma getRandomValue_rounds_up:
  "unitDouble (6004799503160661, 53) \<and> getRandomValue (6004799503160661, 53) = 5
   \<and> \<lfloor>drawValue (6004799503160661, 53) * 6\<rfloor> + 1 = 4"
  by (simp add: round53_def roundToEven_def Let_def)

lemma getRandomValue_largest:
  "unitDouble (2 ^ 53 - 1, 53) \<and> getRandomValue (2 ^ 53 - 1, 53) = 6"
  by (simp add: round53_def roundToEven_def Let_def)

subsection \<open>The count and the resize\<close>

lemma clampDice_min_max: "clampDice c d = min 8 (max 1 (c + d))"
  by (simp add: clampDice_def consts_defs Let_def)

lemma clampDice_bounds: "1 \<le> clampDice c d \<and> clampDice c d \<le> 8"
  by (simp add: clampDice_min_max)

lemma numDice_numDiceEffect: "numDice (numDiceEffect w) = numDice w"
  by (simp add: numDiceEffect_def)

lemma numDice_adjust: "numDice (adjust d w) = numDice (handleAdjustDice d w)"
  by (simp add: adjust_def Let_def numDice_numDiceEffect)

text \<open>
  The handler by itself leaves the total and the collection as they are; it is the effect,
  run after the render that shows the new count, that clears the one and resizes the
  other.
\<close>

lemma handleAdjustDice_frame:
  "total (handleAdjustDice d w) = total w \<and> diceValues (handleAdjustDice d w) = diceValues w"
  by (simp add: handleAdjustDice_def)

lemma slice0_take: "0 \<le> n \<Longrightarrow> slice0 xs n = take (nat n) xs"
  by (simp add: slice0_def)

lemma syncDiceValues_grow:
  "int (length prev) < n \<Longrightarrow>
   syncDiceValues n prev = prev @ replicate (nat (n - int (length prev))) 1"
  by (simp add: syncDiceValues_def Let_def)

lemma syncDiceValues_shrink:
  "0 \<le> n \<Longrightarrow> n < int (length prev) \<Longrightarrow> syncDiceValues n prev = take (nat n) prev"
  by (simp add: syncDiceValues_def Let_def slice0_take)

lemma length_syncDiceValues:
  "0 \<le> n \<Longrightarrow> int (length (syncDiceValues n prev)) = n"
  by (auto simp add: syncDiceValues_def Let_def slice0_take)

lemma adjust_rolling: "isRolling w \<Longrightarrow> adjust d w = w"
  by (simp add: adjust_def handleAdjustDice_def Let_def)

lemma adjust_changed:
  "\<not> isRolling w \<Longrightarrow> clampDice (numDice w) d \<noteq> numDice w \<Longrightarrow>
   adjust d w = w\<lparr> numDice := clampDice (numDice w) d,
                   trace := trace w @ [InitAudio],
                   diceValues := syncDiceValues (clampDice (numDice w) d) (diceValues w),
                   total := None \<rparr>"
  by (simp add: adjust_def handleAdjustDice_def numDiceEffect_def Let_def)

lemma adjust_unchanged:
  "\<not> isRolling w \<Longrightarrow> clampDice (numDice w) d = numDice w \<Longrightarrow>
   adjust d w = w\<lparr> numDice := clampDice (numDice w) d, trace := trace w @ [InitAudio] \<rparr>"
  by (simp add: adjust_def handleAdjustDice_def Let_def)

lemma numDice_animate: "numDice (animate n now rs w) = numDice w"
  by (simp add: animate_def Let_def)

lemma numDice_rollDice: "numDice (rollDice t0 t1 rs w) = numDice w"
  by (simp add: rollDice_def numDice_animate)

lemma numDice_timerFires: "numDice (timerFires now rs w) = numDice w"
  by (simp add: timerFires_def numDice_animate split: option.splits)

subsection \<open>The two branches of \<^verbatim>\<open>animate\<close>\<close>

lemma animate_tick:
  "now - (case startTimeRef w of None \<Rightarrow> 0 | Some t \<Rightarrow> t) < ROLL_DURATION_MS \<Longrightarrow>
   animate n now rs w =
     w\<lparr> diceValues := map (\<lambda>i. getRandomValue (rs i)) [0..<length (diceValues w)],
        pending := Some n,
        trace := trace w @ [PlayShakeSound, SetTimeout SHUFFLE_INTERVAL_MS] \<rparr>"
  by (simp add: animate_def Let_def)

lemma animate_finish:
  "\<not> now - (case startTimeRef w of None \<Rightarrow> 0 | Some t \<Rightarrow> t) < ROLL_DURATION_MS \<Longrightarrow>
   animate n now rs w =
     w\<lparr> diceValues := map (\<lambda>i. getRandomValue (rs i)) [0..<nat n],
        total := Some (sum_list (map (\<lambda>i. getRandomValue (rs i)) [0..<nat n])),
        isRolling := False,
        trace := trace w @
          [SpeakResult (sum_list (map (\<lambda>i. getRandomValue (rs i)) [0..<nat n]) \<ge> n * 3)] \<rparr>"
  by (simp add: animate_def Let_def foldl_add_sum_list)

subsection \<open>The invariant holds in every reachable state\<close>

lemma run_Nil: "run [] = mounted"
  by (simp add: run_def)

lemma run_snoc: "run (es @ [e]) = step e (run es)"
  by (simp add: run_def)

lemma wellFormed_mounted: "wellFormed mounted"
  by (simp add: wellFormed_def mounted_def initial_def numDiceEffect_def syncDiceValues_def
      consts_defs Let_def)

lemma wellFormed_adjust:
  assumes "wellFormed w"
  shows "wellFormed (adjust d w)"
proof (cases "isRolling w")
  case True
  then show ?thesis using assms by (simp add: adjust_rolling)
next
  case nr: False
  show ?thesis
  proof (cases "clampDice (numDice w) d = numDice w")
    case True
    then show ?thesis using assms nr
      by (simp add: adjust_unchanged wellFormed_def)
  next
    case False
    have "0 \<le> clampDice (numDice w) d"
      using clampDice_bounds [of "numDice w" d] by simp
    then show ?thesis using assms nr False clampDice_bounds [of "numDice w" d]
      by (simp add: adjust_changed wellFormed_def consts_defs length_syncDiceValues)
  qed
qed

lemma wellFormed_rollDice:
  assumes "wellFormed w"
  shows "wellFormed (rollDice t0 t1 rs w)"
proof (cases "isRolling w")
  case True
  then show ?thesis using assms by (simp add: rollDice_def)
next
  case nr: False
  show ?thesis
  proof (cases "t1 - t0 < ROLL_DURATION_MS")
    case True
    then show ?thesis using assms nr
      by (simp add: rollDice_def animate_tick wellFormed_def)
  next
    case False
    then show ?thesis using assms nr
      by (simp add: rollDice_def animate_finish wellFormed_def consts_defs)
  qed
qed

lemma wellFormed_timerFires:
  assumes "wellFormed w"
  shows "wellFormed (timerFires now rs w)"
proof (cases "pending w")
  case None
  then show ?thesis using assms by (simp add: timerFires_def)
next
  case (Some n)
  then have r: "isRolling w" and n: "n = numDice w" and t: "total w = None"
    using assms by (auto simp add: wellFormed_def split: if_splits)
  show ?thesis
  proof (cases "now - (case startTimeRef w of None \<Rightarrow> 0 | Some t \<Rightarrow> t) < ROLL_DURATION_MS")
    case True
    then show ?thesis using assms Some r n t
      by (simp add: timerFires_def animate_tick wellFormed_def)
  next
    case False
    then show ?thesis using assms Some r n t
      by (simp add: timerFires_def animate_finish wellFormed_def consts_defs)
  qed
qed

lemma wellFormed_step: "wellFormed w \<Longrightarrow> wellFormed (step e w)"
  by (cases e) (simp_all add: wellFormed_adjust wellFormed_rollDice wellFormed_timerFires)

lemma wellFormed_run: "wellFormed (run es)"
proof (induction es rule: rev_induct)
  case Nil
  show ?case by (simp add: run_Nil wellFormed_mounted)
next
  case (snoc e es)
  then show ?case by (simp add: run_snoc wellFormed_step)
qed

lemma pending_run: "pending (run es) = None \<or> pending (run es) = Some (numDice (run es))"
  using wellFormed_run [of es] by (simp add: wellFormed_def split: if_splits)

subsection \<open>What a completing event leaves behind\<close>

lemma completes_step:
  assumes "completes e w" and "pending w = None \<or> pending w = Some (numDice w)"
  shows "numDice (step e w) = numDice w
     \<and> diceValues (step e w) = map (\<lambda>i. getRandomValue (draws e i)) [0..<nat (numDice w)]
     \<and> total (step e w) =
         Some (sum_list (map (\<lambda>i. getRandomValue (draws e i)) [0..<nat (numDice w)]))
     \<and> \<not> isRolling (step e w)
     \<and> last (trace (step e w)) =
         SpeakResult (sum_list (map (\<lambda>i. getRandomValue (draws e i)) [0..<nat (numDice w)])
                       \<ge> numDice w * 3)"
proof (cases e)
  case (AdjustDice d)
  then show ?thesis using assms by simp
next
  case (RollDice t0 t1 rs)
  then show ?thesis using assms
    by (auto simp add: rollDice_def animate_finish)
next
  case (TimerFires now rs)
  then show ?thesis using assms
    by (auto simp add: timerFires_def animate_finish)
qed

lemma completes_run:
  assumes "completes e (run es)"
  shows "numDice (step e (run es)) = numDice (run es)"
    and "diceValues (step e (run es)) =
           map (\<lambda>i. getRandomValue (draws e i)) [0..<nat (numDice (run es))]"
    and "total (step e (run es)) = Some (sum_list (diceValues (step e (run es))))"
    and "\<not> isRolling (step e (run es))"
    and "last (trace (step e (run es))) =
           SpeakResult (sum_list (diceValues (step e (run es))) \<ge> numDice (run es) * 3)"
  using completes_step [OF assms pending_run] by auto


section \<open>The claims\<close>

text \<open>
  Claim C1. When an event completes a roll in a reachable state, the state it leaves has a
  total \<open>t\<close> and a dice count \<open>n\<close> such that the verdict passed to \<^verbatim>\<open>speakResult\<close> is
  "win" exactly when \<open>t \<ge> n * 3\<close>; the phrase spoken, the displayed flag \<^verbatim>\<open>isLucky\<close> and the
  caption of the results area are decided by the same comparison; and \<open>t = n * 3\<close> is a win.
\<close>

theorem verdict_win_iff_threshold:
  fixes e es
  defines "w' \<equiv> step e (run es)"
  assumes "completes e (run es)"
  shows "\<exists>t. total w' = Some t
     \<and> last (trace w') = SpeakResult (t \<ge> numDice w' * 3)
     \<and> spoken (last (trace w')) =
         Some (if t \<ge> numDice w' * 3 then Congratulations else KeepTrying)
     \<and> isLucky w' = (t \<ge> numDice w' * 3)
     \<and> feedback w' = (if t \<ge> numDice w' * 3 then ''Nice Roll!'' else ''Low Roll...'')
     \<and> (t = numDice w' * 3 \<longrightarrow> isLucky w' \<and> last (trace w') = SpeakResult True)"
proof -
  note c = completes_run [OF assms(2), folded w'_def]
  let ?t = "sum_list (diceValues w')"
  have "total w' = Some ?t" by (rule c(3))
  moreover have sp: "last (trace w') = SpeakResult (?t \<ge> numDice w' * 3)"
    using c(1) c(5) by simp
  moreover have "spoken (last (trace w')) =
         Some (if ?t \<ge> numDice w' * 3 then Congratulations else KeepTrying)"
    by (simp add: sp spoken_def speakText_def)
  moreover have lk: "isLucky w' = (?t \<ge> numDice w' * 3)"
    by (simp add: isLucky_def c(3))
  moreover have "feedback w' =
      (if ?t \<ge> numDice w' * 3 then ''Nice Roll!'' else ''Low Roll...'')"
    using c(4) by (simp add: feedback_def lk c(3))
  moreover have "?t = numDice w' * 3 \<longrightarrow> isLucky w' \<and> last (trace w') = SpeakResult True"
    using lk sp by simp
  ultimately show ?thesis by blast
qed

text \<open>Two dice that both come up 3: the total 6 is the threshold itself, and it wins.\<close>

theorem verdict_win_iff_threshold_witness:
  "completes (TimerFires 1000 (\<lambda>i. (3, 3))) (run [AdjustDice 1, RollDice 0 5 (\<lambda>i. (3, 3))])
   \<and> total (run [AdjustDice 1, RollDice 0 5 (\<lambda>i. (3, 3)), TimerFires 1000 (\<lambda>i. (3, 3))]) = Some 6
   \<and> numDice (run [AdjustDice 1, RollDice 0 5 (\<lambda>i. (3, 3)), TimerFires 1000 (\<lambda>i. (3, 3))]) = 2
   \<and> last (trace (run [AdjustDice 1, RollDice 0 5 (\<lambda>i. (3, 3)), TimerFires 1000 (\<lambda>i. (3, 3))]))
       = SpeakResult True
   \<and> isLucky (run [AdjustDice 1, RollDice 0 5 (\<lambda>i. (3, 3)), TimerFires 1000 (\<lambda>i. (3, 3))])
   \<and> feedback (run [AdjustDice 1, RollDice 0 5 (\<lambda>i. (3, 3)), TimerFires 1000 (\<lambda>i. (3, 3))])
       = ''Nice Roll!''"
proof -
  let ?es = "[AdjustDice 1, RollDice 0 5 (\<lambda>i. (3, 3))]"
  let ?e = "TimerFires 1000 (\<lambda>i. (3, 3))"
  have h: "completes ?e (run ?es)" by (simp add: eval_defs upt_rec)
  have r: "run (?es @ [?e]) = step ?e (run ?es)" by (rule run_snoc)
  have t: "total (step ?e (run ?es)) = Some 6" by (simp add: eval_defs upt_rec)
  have n: "numDice (step ?e (run ?es)) = 2" by (simp add: eval_defs upt_rec)
  from verdict_win_iff_threshold [OF h] t n h r show ?thesis by auto
qed

text \<open>
  Claim C2. When an event completes a roll in a reachable state, the total is the sum of
  the final collection; the final collection has one entry per die, entry \<open>i\<close> being the
  value of the \<open>i\<close>-th number drawn by the completing event itself; and the total is the
  same whatever collection the shuffle ticks had left on display.
\<close>

theorem total_is_sum_of_final_draws:
  fixes e es
  defines "w' \<equiv> step e (run es)"
  assumes "completes e (run es)"
  shows "total w' = Some (sum_list (diceValues w'))
     \<and> diceValues w' = map (\<lambda>i. getRandomValue (draws e i)) [0..<nat (numDice w')]
     \<and> length (diceValues w') = nat (numDice w')
     \<and> (\<forall>shown. total (step e ((run es)\<lparr> diceValues := shown \<rparr>)) = total w')"
proof -
  note c = completes_run [OF assms(2), folded w'_def]
  have "total (step e ((run es)\<lparr> diceValues := shown \<rparr>)) = total w'" for shown
  proof -
    let ?w = "(run es)\<lparr> diceValues := shown \<rparr>"
    have a: "completes e ?w" using assms(2) by (cases e) simp_all
    have b: "pending ?w = None \<or> pending ?w = Some (numDice ?w)"
      using pending_run [of es] by simp
    from completes_step [OF a b] c(2) c(3) show ?thesis by simp
  qed
  then show ?thesis using c(1) c(2) c(3) by simp
qed

text \<open>
  Two dice showing 3 and 3 after the first tick; the final draws give 1 and 6, total 7,
  and the total is 7 as well had the display shown 6 and 6.
\<close>

theorem total_is_sum_of_final_draws_witness:
  "completes (TimerFires 1000 (\<lambda>i. if i = 0 then (0, 0) else (7, 3)))
             (run [AdjustDice 1, RollDice 0 5 (\<lambda>i. (3, 3))])
   \<and> diceValues (run [AdjustDice 1, RollDice 0 5 (\<lambda>i. (3, 3))]) = [3, 3]
   \<and> diceValues (step (TimerFires 1000 (\<lambda>i. if i = 0 then (0, 0) else (7, 3)))
                 (run [AdjustDice 1, RollDice 0 5 (\<lambda>i. (3, 3))])) = [1, 6]
   \<and> total (step (TimerFires 1000 (\<lambda>i. if i = 0 then (0, 0) else (7, 3)))
                 (run [AdjustDice 1, RollDice 0 5 (\<lambda>i. (3, 3))])) = Some 7
   \<and> total (step (TimerFires 1000 (\<lambda>i. if i = 0 then (0, 0) else (7, 3)))
                 ((run [AdjustDice 1, RollDice 0 5 (\<lambda>i. (3, 3))])\<lparr> diceValues := [6, 6] \<rparr>)) = Some 7"
proof -
  let ?es = "[AdjustDice 1, RollDice 0 5 (\<lambda>i. (3, 3))]"
  let ?e = "TimerFires 1000 (\<lambda>i. if i = 0 then (0, 0) else (7, 3))"
  have h: "completes ?e (run ?es)" by (simp add: eval_defs upt_rec)
  have d0: "diceValues (run ?es) = [3, 3]" by (simp add: eval_defs upt_rec)
  have d: "diceValues (step ?e (run ?es)) = [1, 6]" by (simp add: eval_defs upt_rec)
  from total_is_sum_of_final_draws [OF h] h d0 d show ?thesis by simp
qed

text \<open>
  Claim C3. When an event completes a roll in a reachable state and each number it draws,
  one per die, is a double in \<open>[0, 1)\<close>, the dice count \<open>n\<close> is in \<open>[1, 8]\<close>, the final
  collection has length \<open>n\<close> and each of its elements is in \<open>[1, 6]\<close>; and the face
  \<^verbatim>\<open>Math.floor(r * 6) + 1\<close>, the product being the binary64 one, is in \<open>[1, 6]\<close> for every
  double \<open>r\<close> in \<open>[0, 1)\<close>.
\<close>

theorem final_collection_length_and_range:
  fixes e es
  defines "w' \<equiv> step e (run es)"
  assumes "completes e (run es)"
      and "\<forall>i < nat (numDice (run es)). unitDouble (draws e i)"
  shows "1 \<le> numDice w' \<and> numDice w' \<le> 8
     \<and> int (length (diceValues w')) = numDice w'
     \<and> (\<forall>v \<in> set (diceValues w'). 1 \<le> v \<and> v \<le> 6)
     \<and> (\<forall>d. unitDouble d \<longrightarrow> 1 \<le> getRandomValue d \<and> getRandomValue d \<le> 6)"
proof -
  note c = completes_run [OF assms(2), folded w'_def]
  have n: "1 \<le> numDice w' \<and> numDice w' \<le> 8"
    using wellFormed_run [of es] c(1) by (simp add: wellFormed_def consts_defs)
  have len: "int (length (diceValues w')) = numDice w'"
    using n c(1) c(2) by simp
  have rng: "\<forall>v \<in> set (diceValues w'). 1 \<le> v \<and> v \<le> 6"
  proof
    fix v assume "v \<in> set (diceValues w')"
    then obtain i where i: "i < nat (numDice (run es))" and v: "v = getRandomValue (draws e i)"
      by (auto simp add: c(2))
    from i assms(3) have "unitDouble (draws e i)" by simp
    then show "1 \<le> v \<and> v \<le> 6" using v getRandomValue_range by simp
  qed
  show ?thesis using n len rng getRandomValue_range by blast
qed

text \<open>
  Two dice. The final draws are the double just below \<open>2/3\<close>, whose product with 6 rounds
  up to 4, and the largest double below 1: the faces are 5 and 6.
\<close>

theorem final_collection_length_and_range_witness:
  "completes (TimerFires 1000 (\<lambda>i. if i = 0 then (6004799503160661, 53)
                                    else (9007199254740991, 53)))
             (run [AdjustDice 1, RollDice 0 5 (\<lambda>i. (3, 3))])
   \<and> nat (numDice (run [AdjustDice 1, RollDice 0 5 (\<lambda>i. (3, 3))])) = 2
   \<and> unitDouble (6004799503160661, 53) \<and> unitDouble (9007199254740991, 53)
   \<and> numDice (step (TimerFires 1000 (\<lambda>i. if i = 0 then (6004799503160661, 53)
                                         else (9007199254740991, 53)))
                 (run [AdjustDice 1, RollDice 0 5 (\<lambda>i. (3, 3))])) = 2
   \<and> diceValues (step (TimerFires 1000 (\<lambda>i. if i = 0 then (6004799503160661, 53)
                                         else (9007199254740991, 53)))
                 (run [AdjustDice 1, RollDice 0 5 (\<lambda>i. (3, 3))])) = [5, 6]
   \<and> getRandomValue (0, 0) = 1 \<and> getRandomValue (9007199254740991, 53) = 6"
proof -
  let ?es = "[AdjustDice 1, RollDice 0 5 (\<lambda>i. (3, 3))]"
  let ?e = "TimerFires 1000 (\<lambda>i. if i = 0 then (6004799503160661, 53)
                                 else (9007199254740991, 53))"
  have u: "unitDouble (6004799503160661, 53) \<and> unitDouble (9007199254740991, 53)" by simp
  have k: "numDice (run ?es) = 2" by (simp add: eval_defs)
  have h: "completes ?e (run ?es)" by (simp add: eval_defs upt_rec)
  have g: "\<forall>i < nat (numDice (run ?es)). unitDouble (draws ?e i)" using u by simp
  have n: "numDice (step ?e (run ?es)) = 2" by (simp add: eval_defs upt_rec)
  have d: "diceValues (step ?e (run ?es)) = [5, 6]" by (simp add: eval_defs upt_rec)
  have v: "getRandomValue (0, 0) = 1 \<and> getRandomValue (9007199254740991, 53) = 6"
    by (simp add: round53_def roundToEven_def Let_def)
  from final_collection_length_and_range [OF h g] h k u n d v show ?thesis by simp
qed

text \<open>
  Claim C4. When no roll is in progress, a click that adjusts the count by \<open>delta\<close> leaves
  the count \<open>min 8 (max 1 (c + delta))\<close>, \<open>c\<close> being the count before; adjusting by \<open>+1\<close> at
  count 8 leaves 8, and by \<open>-1\<close> at count 1 leaves 1.
\<close>

theorem adjust_clamps:
  assumes "\<not> isRolling w"
  shows "numDice (adjust delta w) = min 8 (max 1 (numDice w + delta))
       \<and> (numDice w = 8 \<longrightarrow> numDice (adjust 1 w) = 8)
       \<and> (numDice w = 1 \<longrightarrow> numDice (adjust (- 1) w) = 1)"
  using assms by (simp add: numDice_adjust handleAdjustDice_def clampDice_min_max)

theorem adjust_clamps_witness:
  "\<not> isRolling mounted
   \<and> numDice (adjust 9 mounted) = min 8 (max 1 (numDice mounted + 9))
   \<and> numDice (adjust 9 mounted) = 8
   \<and> numDice (adjust 1 (adjust 9 mounted)) = 8
   \<and> numDice (adjust (- 1) mounted) = 1"
proof -
  have h: "\<not> isRolling mounted"
    by (simp add: mounted_def numDiceEffect_def initial_def)
  have n: "numDice mounted = 1"
    by (simp add: mounted_def numDiceEffect_def initial_def)
  have h2: "\<not> isRolling (adjust 9 mounted)"
    by (simp add: adjust_def handleAdjustDice_def numDiceEffect_def Let_def mounted_def initial_def)
  from adjust_clamps [OF h, of 9] adjust_clamps [OF h2, of 1] h n show ?thesis by simp
qed

text \<open>
  Claim C5. In a state whose collection has one entry per die, a click that changes the
  count from \<open>k\<close> to \<open>n\<close> resizes the collection: for \<open>n > k\<close> it is the old collection followed
  by \<open>n - k\<close> entries equal to 1, for \<open>n < k\<close> it is the first \<open>n\<close> entries of the old one.
\<close>

theorem resize_on_count_change:
  assumes "int (length (diceValues w)) = numDice w"
      and "numDice (adjust d w) = n"
      and "n \<noteq> numDice w"
  shows "(numDice w < n \<longrightarrow>
            diceValues (adjust d w) = diceValues w @ replicate (nat (n - numDice w)) 1)
       \<and> (n < numDice w \<longrightarrow> diceValues (adjust d w) = take (nat n) (diceValues w))"
proof -
  have nr: "\<not> isRolling w"
    using assms(2,3) adjust_rolling [of w d] by auto
  have n: "n = clampDice (numDice w) d"
    using assms(2) nr by (simp add: numDice_adjust handleAdjustDice_def)
  have dv: "diceValues (adjust d w) = syncDiceValues n (diceValues w)"
    using nr n assms(3) by (simp add: adjust_changed)
  have "0 \<le> n" using n clampDice_bounds [of "numDice w" d] by simp
  then show ?thesis
    using dv assms(1) syncDiceValues_grow [of "diceValues w" n]
      syncDiceValues_shrink [of n "diceValues w"] by simp
qed

text \<open>
  Four dice showing 3, 3, 3, 3: growing to six appends two 1s, shrinking to two keeps the
  first two.
\<close>

theorem resize_on_count_change_witness:
  "int (length (diceValues (run [AdjustDice 3, RollDice 0 1000 (\<lambda>i. (3, 3))])))
     = numDice (run [AdjustDice 3, RollDice 0 1000 (\<lambda>i. (3, 3))])
   \<and> diceValues (run [AdjustDice 3, RollDice 0 1000 (\<lambda>i. (3, 3))]) = [3, 3, 3, 3]
   \<and> numDice (adjust 2 (run [AdjustDice 3, RollDice 0 1000 (\<lambda>i. (3, 3))])) = 6
   \<and> diceValues (adjust 2 (run [AdjustDice 3, RollDice 0 1000 (\<lambda>i. (3, 3))]))
       = [3, 3, 3, 3, 1, 1]
   \<and> numDice (adjust (- 2) (run [AdjustDice 3, RollDice 0 1000 (\<lambda>i. (3, 3))])) = 2
   \<and> diceValues (adjust (- 2) (run [AdjustDice 3, RollDice 0 1000 (\<lambda>i. (3, 3))])) = [3, 3]"
proof -
  let ?w = "run [AdjustDice 3, RollDice 0 1000 (\<lambda>i. (3, 3))]"
  have k: "numDice ?w = 4" by (simp add: eval_defs upt_rec)
  have dv: "diceValues ?w = [3, 3, 3, 3]" by (simp add: eval_defs upt_rec)
  have a: "int (length (diceValues ?w)) = numDice ?w" using k dv by simp
  have up: "numDice (adjust 2 ?w) = 6" by (simp add: eval_defs upt_rec)
  have dn: "numDice (adjust (- 2) ?w) = 2" by (simp add: eval_defs upt_rec)
  have c1: "(6::int) \<noteq> numDice ?w" using k by simp
  have c2: "(2::int) \<noteq> numDice ?w" using k by simp
  have r: "replicate (nat (6 - 4)) (1::int) = [1, 1]" by (simp add: numeral_2_eq_2)
  have t: "take (nat 2) [3, 3, 3, 3::int] = [3, 3]" by (simp add: numeral_2_eq_2)
  from resize_on_count_change [OF a up c1] resize_on_count_change [OF a dn c2]
       a k dv up dn r t
  show ?thesis by simp
qed

text \<open>
  Claim C6. After any transition in which the dice count changes, the total is absent,
  whatever it was before.
\<close>

theorem count_change_clears_total:
  assumes "numDice (step e w) \<noteq> numDice w"
  shows "total (step e w) = None"
proof (cases e)
  case (AdjustDice d)
  then show ?thesis using assms
    by (auto simp add: adjust_def handleAdjustDice_def numDiceEffect_def Let_def)
next
  case (RollDice t0 t1 rs)
  then show ?thesis using assms by (simp add: numDice_rollDice)
next
  case (TimerFires now rs)
  then show ?thesis using assms by (simp add: numDice_timerFires)
qed

text \<open>One die rolled to 4, total 4; adding a die clears the total.\<close>

theorem count_change_clears_total_witness:
  "total (run [RollDice 0 1000 (\<lambda>i. (1, 1))]) = Some 4
   \<and> numDice (step (AdjustDice 1) (run [RollDice 0 1000 (\<lambda>i. (1, 1))]))
       \<noteq> numDice (run [RollDice 0 1000 (\<lambda>i. (1, 1))])
   \<and> total (step (AdjustDice 1) (run [RollDice 0 1000 (\<lambda>i. (1, 1))])) = None"
proof -
  let ?w = "run [RollDice 0 1000 (\<lambda>i. (1, 1))]"
  have t: "total ?w = Some 4" by (simp add: eval_defs upt_rec)
  have h: "numDice (step (AdjustDice 1) ?w) \<noteq> numDice ?w" by (simp add: eval_defs upt_rec)
  from count_change_clears_total [OF h] t h show ?thesis by simp
qed

text \<open>
  Claim C7. While a roll is in progress, adjusting the count and triggering a roll both
  leave the whole state as it is: count, collection, rolling flag, total, the refs, and
  the trace of host calls, so that no side effect is performed.
\<close>

theorem rolling_blocks_adjust_and_roll:
  assumes "isRolling w"
  shows "adjust delta w = w \<and> handleAdjustDice delta w = w \<and> rollDice t0 t1 rs w = w"
  using assms by (simp add: adjust_def handleAdjustDice_def rollDice_def Let_def)

theorem rolling_blocks_adjust_and_roll_witness:
  "isRolling (run [RollDice 0 5 (\<lambda>i. (1, 1))])
   \<and> adjust 1 (run [RollDice 0 5 (\<lambda>i. (1, 1))]) = run [RollDice 0 5 (\<lambda>i. (1, 1))]
   \<and> rollDice 7 8 (\<lambda>i. (0, 0)) (run [RollDice 0 5 (\<lambda>i. (1, 1))]) = run [RollDice 0 5 (\<lambda>i. (1, 1))]"
proof -
  have h: "isRolling (run [RollDice 0 5 (\<lambda>i. (1, 1))])" by (simp add: eval_defs upt_rec)
  from rolling_blocks_adjust_and_roll [OF h, of 1 7 8 "\<lambda>i. (0, 0)"] h show ?thesis by simp
qed

text \<open>
  Claim C8. In no reachable state is a total present while the rolling flag is set.
  A roll started in an idle state, its first call of \<^verbatim>\<open>animate\<close> finding the duration not
  yet elapsed, leaves the flag set and the total absent; and a transition that leaves a
  total present that was not there before is one that completes a roll, and it leaves the
  flag cleared.
\<close>

theorem total_absent_while_rolling:
  "\<not> (isRolling (run es) \<and> total (run es) \<noteq> None)
   \<and> (\<not> isRolling w \<and> t1 - t0 < ROLL_DURATION_MS \<longrightarrow>
        isRolling (rollDice t0 t1 rs w) \<and> total (rollDice t0 t1 rs w) = None)
   \<and> (total (step e w) \<noteq> None \<and> total (step e w) \<noteq> total w \<longrightarrow>
        completes e w \<and> \<not> isRolling (step e w))"
proof -
  have inv: "\<not> (isRolling (run es) \<and> total (run es) \<noteq> None)"
    using wellFormed_run [of es] by (auto simp add: wellFormed_def)
  have start: "isRolling (rollDice t0 t1 rs w) \<and> total (rollDice t0 t1 rs w) = None"
    if "\<not> isRolling w" "t1 - t0 < ROLL_DURATION_MS"
    using that by (simp add: rollDice_def animate_tick)
  have fin: "completes e w \<and> \<not> isRolling (step e w)"
    if a: "total (step e w) \<noteq> None" and b: "total (step e w) \<noteq> total w"
  proof (cases e)
    case (AdjustDice d)
    then show ?thesis using a b
      by (auto simp add: adjust_def handleAdjustDice_def numDiceEffect_def Let_def split: if_splits)
  next
    case (RollDice t0 t1 rs)
    then show ?thesis using a b
      by (cases "isRolling w"; cases "t1 - t0 < ROLL_DURATION_MS")
         (simp_all add: rollDice_def animate_tick animate_finish)
  next
    case (TimerFires now rs)
    then show ?thesis using a b
      by (cases "pending w";
          cases "now - (case startTimeRef w of None \<Rightarrow> 0 | Some t \<Rightarrow> t) < ROLL_DURATION_MS")
         (simp_all add: timerFires_def animate_tick animate_finish)
  qed
  from inv start fin show ?thesis by blast
qed

text \<open>
  One die: the roll starts at time 0, its first tick is at time 5, and the callback at
  time 1000 completes it with the value 4.
\<close>

theorem total_absent_while_rolling_witness:
  "isRolling (run [RollDice 0 5 (\<lambda>i. (1, 1))]) \<and> total (run [RollDice 0 5 (\<lambda>i. (1, 1))]) = None
   \<and> \<not> isRolling mounted \<and> (5::int) - 0 < ROLL_DURATION_MS
   \<and> isRolling (rollDice 0 5 (\<lambda>i. (1, 1)) mounted)
   \<and> total (step (TimerFires 1000 (\<lambda>i. (1, 1))) (run [RollDice 0 5 (\<lambda>i. (1, 1))])) = Some 4
   \<and> completes (TimerFires 1000 (\<lambda>i. (1, 1))) (run [RollDice 0 5 (\<lambda>i. (1, 1))])
   \<and> \<not> isRolling (step (TimerFires 1000 (\<lambda>i. (1, 1))) (run [RollDice 0 5 (\<lambda>i. (1, 1))]))"
proof -
  let ?rs = "\<lambda>i::nat. (1, 1) :: draw"
  let ?w = "run [RollDice 0 5 ?rs]"
  let ?e = "TimerFires 1000 ?rs"
  have r: "isRolling ?w" by (simp add: eval_defs upt_rec)
  have m: "\<not> isRolling mounted" by (simp add: eval_defs upt_rec)
  have d: "(5::int) - 0 < ROLL_DURATION_MS" by (simp add: ROLL_DURATION_MS_def)
  have t: "total (step ?e ?w) = Some 4" by (simp add: eval_defs upt_rec)
  have t0: "total ?w = None" by (simp add: eval_defs upt_rec)
  from total_absent_while_rolling [where es = "[RollDice 0 5 ?rs]" and w = mounted
        and ?t1.0 = 5 and ?t0.0 = 0 and rs = ?rs]
      total_absent_while_rolling [where e = ?e and w = ?w] r m d t t0
  show ?thesis by simp
qed

text \<open>
  Claim C9. A click on a count button that leaves the count as it was leaves the total and
  the collection as they were; so do \<open>+1\<close> at count 8 and \<open>-1\<close> at count 1, which leave the
  count at 8 and at 1.
\<close>

theorem unchanged_count_keeps_total_and_dice:
  "(numDice (adjust delta w) = numDice w \<longrightarrow>
      total (adjust delta w) = total w \<and> diceValues (adjust delta w) = diceValues w)
   \<and> (numDice w = 8 \<longrightarrow>
      numDice (adjust 1 w) = 8 \<and> total (adjust 1 w) = total w
      \<and> diceValues (adjust 1 w) = diceValues w)
   \<and> (numDice w = 1 \<longrightarrow>
      numDice (adjust (- 1) w) = 1 \<and> total (adjust (- 1) w) = total w
      \<and> diceValues (adjust (- 1) w) = diceValues w)"
  by (simp add: adjust_def handleAdjustDice_def numDiceEffect_def clampDice_min_max Let_def)

text \<open>Eight dice rolled to 4 each, total 32, then \<open>+1\<close>; one die rolled to 4, then \<open>-1\<close>.\<close>

theorem unchanged_count_keeps_total_and_dice_witness:
  "numDice (run [AdjustDice 7, RollDice 0 1000 (\<lambda>i. (1, 1))]) = 8
   \<and> numDice (adjust 1 (run [AdjustDice 7, RollDice 0 1000 (\<lambda>i. (1, 1))])) = 8
   \<and> total (adjust 1 (run [AdjustDice 7, RollDice 0 1000 (\<lambda>i. (1, 1))])) = Some 32
   \<and> diceValues (adjust 1 (run [AdjustDice 7, RollDice 0 1000 (\<lambda>i. (1, 1))]))
       = [4, 4, 4, 4, 4, 4, 4, 4]
   \<and> numDice (run [RollDice 0 1000 (\<lambda>i. (1, 1))]) = 1
   \<and> numDice (adjust (- 1) (run [RollDice 0 1000 (\<lambda>i. (1, 1))])) = 1
   \<and> total (adjust (- 1) (run [RollDice 0 1000 (\<lambda>i. (1, 1))])) = Some 4
   \<and> diceValues (adjust (- 1) (run [RollDice 0 1000 (\<lambda>i. (1, 1))])) = [4]"
proof -
  let ?hi = "run [AdjustDice 7, RollDice 0 1000 (\<lambda>i. (1, 1))]"
  let ?lo = "run [RollDice 0 1000 (\<lambda>i. (1, 1))]"
  have a: "numDice ?hi = 8" by (simp add: eval_defs upt_rec)
  have b: "total ?hi = Some 32" by (simp add: eval_defs upt_rec)
  have c: "diceValues ?hi = [4, 4, 4, 4, 4, 4, 4, 4]" by (simp add: eval_defs upt_rec)
  have d: "numDice ?lo = 1" by (simp add: eval_defs upt_rec)
  have e: "total ?lo = Some 4" by (simp add: eval_defs upt_rec)
  have f: "diceValues ?lo = [4]" by (simp add: eval_defs upt_rec)
  from unchanged_count_keeps_total_and_dice [of 1 ?hi]
       unchanged_count_keeps_total_and_dice [of "- 1" ?lo] a b c d e f
  show ?thesis by simp
qed

text \<open>
  Claim C10. \<^verbatim>\<open>getDots\<close> is a function of the die value alone. For the values 1 to 6 it
  returns the standard patterns: the centre; two opposite corners; a diagonal; the four
  corners; the four corners and the centre; the two outer columns. For every value \<open>v\<close> from
  1 to 6 the positions are \<open>v\<close> distinct cells of the 3x3 grid, and exactly \<open>v\<close> of the nine
  rendered cells show a dot.
\<close>

theorem getDots_standard_patterns:
  "getDots 1 = [4] \<and> getDots 2 = [2, 6] \<and> getDots 3 = [0, 4, 8]
   \<and> getDots 4 = [0, 2, 6, 8] \<and> getDots 5 = [0, 2, 4, 6, 8]
   \<and> getDots 6 = [0, 2, 3, 5, 6, 8]
   \<and> (1 \<le> v \<and> v \<le> 6 \<longrightarrow>
        int (length (getDots v)) = v \<and> distinct (getDots v)
        \<and> (\<forall>p \<in> set (getDots v). p < 9)
        \<and> int (length (filter (\<lambda>lit. lit) (dieCells v))) = v)"
proof -
  have pats: "getDots 1 = [4] \<and> getDots 2 = [2, 6] \<and> getDots 3 = [0, 4, 8]
   \<and> getDots 4 = [0, 2, 6, 8] \<and> getDots 5 = [0, 2, 4, 6, 8]
   \<and> getDots 6 = [0, 2, 3, 5, 6, 8]"
    by (simp add: getDots_def)
  have cells: "length (filter (\<lambda>lit. lit) (dieCells 1)) = 1"
    "length (filter (\<lambda>lit. lit) (dieCells 2)) = 2"
    "length (filter (\<lambda>lit. lit) (dieCells 3)) = 3"
    "length (filter (\<lambda>lit. lit) (dieCells 4)) = 4"
    "length (filter (\<lambda>lit. lit) (dieCells 5)) = 5"
    "length (filter (\<lambda>lit. lit) (dieCells 6)) = 6"
    by (simp_all add: dieCells_def getDots_def upt_rec)
  have "int (length (getDots v)) = v \<and> distinct (getDots v)
        \<and> (\<forall>p \<in> set (getDots v). p < 9)
        \<and> int (length (filter (\<lambda>lit. lit) (dieCells v))) = v"
    if "1 \<le> v" "v \<le> 6"
  proof -
    from that have "v = 1 \<or> v = 2 \<or> v = 3 \<or> v = 4 \<or> v = 5 \<or> v = 6" by arith
    then show ?thesis
      using pats cells by (elim disjE) simp_all
  qed
  with pats show ?thesis by blast
qed

theorem getDots_standard_patterns_witness:
  "(1::int) \<le> 5 \<and> (5::int) \<le> 6 \<and> getDots 5 = [0, 2, 4, 6, 8]
   \<and> int (length (getDots 5)) = 5 \<and> distinct (getDots 5)
   \<and> list_all (\<lambda>p. p < 9) (getDots 5)
   \<and> dieCells 5 = [True, False, True, False, True, False, True, False, True]
   \<and> int (length (filter (\<lambda>lit. lit) (dieCells 5))) = 5"
proof -
  have c: "dieCells 5 = [True, False, True, False, True, False, True, False, True]"
    by code_simp
  from getDots_standard_patterns [of 5] c show ?thesis by (simp add: list_all_iff)
qed

end
